theory Spec2Isabelle
  imports Complex_Main "HOL-Library.Word"
begin

section \<open>Photoluminescence cell brightness analyzer: data model\<close>

text \<open>
  The embedding follows \<^verbatim>\<open>src/cell_brightness_analyzer.py\<close>.

  \<^item> The loaded image is the array \<^verbatim>\<open>np.array(pil_image)\<close> of a PIL image in mode
    \<^verbatim>\<open>L\<close>: a two-dimensional array of unsigned 8-bit samples, here a list of rows.
  \<^item> Python integers are unbounded: \<open>int\<close>.
  \<^item> A float64 is idealised as an exact rational, or NaN. The results of \<^verbatim>\<open>np.median\<close>
    and \<^verbatim>\<open>np.max\<close> on 8-bit samples are integers or half-integers and are exact;
    \<^verbatim>\<open>np.mean\<close> rounds the rational written here to the nearest float64, and rounding
    is monotone, so an order between a mean and an integer or half-integer is kept by it.
    \<^verbatim>\<open>np.percentile\<close> interpolates in float64 with roundings of its own, so its float
    can differ from the rational written here in the last places; no statement below
    depends on the value of a percentile.
  \<^item> An exception is a value of \<open>py_error\<close>: the class, and for the errors that the
    repository raises itself and for the empty reduction of \<^verbatim>\<open>np.max\<close> the message.
\<close>

type_synonym u8 = "8 word"

type_synonym ndarray = "u8 list list"

datatype pyfloat = Fin rat | NaN

datatype npscalar = UInt8 u8 | Float64 pyfloat

datatype py_error = ValueError string | ZeroDivisionError | IndexError

text \<open>\<^verbatim>\<open>float(v)\<close> of a numpy scalar.\<close>

fun py_float :: "npscalar \<Rightarrow> pyfloat" where
  "py_float (UInt8 w) = Fin (of_nat (unat w))"
| "py_float (Float64 f) = f"

text \<open>The dataclass \<^verbatim>\<open>Cell\<close>; \<^verbatim>\<open>brightness\<close> defaults to \<^verbatim>\<open>0.0\<close> and
  \<^verbatim>\<open>cell_id\<close> to \<^verbatim>\<open>None\<close>.\<close>

record cell =
  c_x :: int
  c_y :: int
  c_width :: int
  c_height :: int
  c_brightness :: pyfloat
  c_cell_id :: "string option"

definition Cell :: "int \<Rightarrow> int \<Rightarrow> int \<Rightarrow> int \<Rightarrow> string option \<Rightarrow> cell" where
  "Cell x y w h i =
     \<lparr>c_x = x, c_y = y, c_width = w, c_height = h, c_brightness = Fin 0, c_cell_id = i\<rparr>"

text \<open>The values of the dictionary that \<^verbatim>\<open>Cell.to_dict\<close> builds, in insertion order.\<close>

datatype pyval = PNone | PStr string | PInt int | PFloat pyfloat

type_synonym pydict = "(string \<times> pyval) list"

definition to_dict :: "cell \<Rightarrow> pydict" where
  "to_dict c =
     [(''cell_id'', (case c_cell_id c of None \<Rightarrow> PNone | Some s \<Rightarrow> PStr s)),
      (''x'', PInt (c_x c)),
      (''y'', PInt (c_y c)),
      (''width'', PInt (c_width c)),
      (''height'', PInt (c_height c)),
      (''brightness'', PFloat (c_brightness c))]"

text \<open>The analyzer object: \<^verbatim>\<open>self.image\<close>, \<^verbatim>\<open>self.cells\<close>, \<^verbatim>\<open>self.results\<close>.
  The cells are held by value: the brightness of a cell depends on its own fields and
  on the image only, so two references to one cell object and two equal cells are
  written alike.\<close>

record analyzer =
  self_image :: "ndarray option"
  self_cells :: "cell list"
  self_results :: "pydict list"

definition init :: analyzer where
  "init = \<lparr>self_image = None, self_cells = [], self_results = []\<rparr>"

definition no_image_loaded :: py_error where
  "no_image_loaded = ValueError ''No image loaded. Call load_image() first.''"

definition no_cells_defined :: py_error where
  "no_cells_defined = ValueError ''No cells defined. Add cells first.''"

definition unknown_method :: "string \<Rightarrow> py_error" where
  "unknown_method method = ValueError (''Unknown method: '' @ method)"

definition zero_size_maximum :: py_error where
  "zero_size_maximum =
     ValueError ''zero-size array to reduction operation maximum which has no identity''"

section \<open>Array slicing and reductions\<close>

text \<open>\<^verbatim>\<open>self.image.shape\<close>: rows first, then columns.\<close>

definition shape :: "ndarray \<Rightarrow> nat \<times> nat" where
  "shape a = (length a, (case a of [] \<Rightarrow> 0 | r # _ \<Rightarrow> length r))"

text \<open>A slice bound \<open>i\<close> on an axis of length \<open>n\<close>: a negative bound counts from the
  end, and every bound is clipped to \<open>0..n\<close>.\<close>

definition slice_bound :: "nat \<Rightarrow> int \<Rightarrow> nat" where
  "slice_bound n i = (if i < 0 then nat (max 0 (int n + i)) else min n (nat i))"

text \<open>\<^verbatim>\<open>xs[lo:hi]\<close>; empty when the clipped start is not below the clipped stop.\<close>

definition py_slice :: "int \<Rightarrow> int \<Rightarrow> 'a list \<Rightarrow> 'a list" where
  "py_slice lo hi xs =
     (let start = slice_bound (length xs) lo; stop = slice_bound (length xs) hi
      in take (stop - start) (drop start xs))"

text \<open>\<^verbatim>\<open>a[y0:y1, x0:x1]\<close>.\<close>

definition getitem2 :: "ndarray \<Rightarrow> int \<Rightarrow> int \<Rightarrow> int \<Rightarrow> int \<Rightarrow> ndarray" where
  "getitem2 a y0 y1 x0 x1 = map (py_slice x0 x1) (py_slice y0 y1 a)"

definition sample :: "u8 \<Rightarrow> rat" where
  "sample w = of_nat (unat w)"

text \<open>\<^verbatim>\<open>np.mean\<close> over all samples: NaN (with a warning) on an empty array.\<close>

definition np_mean :: "ndarray \<Rightarrow> pyfloat" where
  "np_mean a =
     (let xs = concat a
      in if xs = [] then NaN else Fin (of_nat (sum_list (map unat xs)) / of_nat (length xs)))"

text \<open>\<^verbatim>\<open>np.median\<close> over all samples: the middle of the sorted samples, the mean of
  the two middle ones for an even count, NaN on an empty array.\<close>

definition np_median :: "ndarray \<Rightarrow> pyfloat" where
  "np_median a =
     (let s = sort (concat a); n = length s
      in if n = 0 then NaN
         else if odd n then Fin (sample (s ! (n div 2)))
         else Fin ((sample (s ! (n div 2 - 1)) + sample (s ! (n div 2))) / 2))"

text \<open>\<^verbatim>\<open>np.max\<close> over all samples: raises on an empty array.\<close>

definition np_max :: "ndarray \<Rightarrow> py_error + u8" where
  "np_max a =
     (case concat a of [] \<Rightarrow> Inl zero_size_maximum | x # xs \<Rightarrow> Inr (fold max xs x))"

text \<open>\<^verbatim>\<open>np.percentile(a, q)\<close>, method \<^verbatim>\<open>linear\<close>: the virtual index \<open>(n-1) * q/100\<close>
  in the sorted samples, interpolated between its two neighbours; the rational is the
  value of the interpolation without the roundings that numpy makes on the way. On an
  empty array numpy from 1.22 on raises an index error, whose message is not modelled
  (older versions returned NaN).\<close>

definition np_percentile :: "ndarray \<Rightarrow> rat \<Rightarrow> py_error + pyfloat" where
  "np_percentile a q =
     (let s = sort (concat a); n = length s
      in if n = 0 then Inl IndexError
         else
           let v = of_nat (n - 1) * q / 100;
               lo = nat \<lfloor>v\<rfloor>;
               hi = min (lo + 1) (n - 1);
               gamma = v - of_int \<lfloor>v\<rfloor>
           in Inr (Fin (sample (s ! lo) + (sample (s ! hi) - sample (s ! lo)) * gamma)))"

section \<open>The Brightness Reducer\<close>

text \<open>\<^verbatim>\<open>cell_region = self.image[cell.y:cell.y+cell.height, cell.x:cell.x+cell.width]\<close>\<close>

definition cell_region :: "ndarray \<Rightarrow> cell \<Rightarrow> ndarray" where
  "cell_region img c =
     getitem2 img (c_y c) (c_y c + c_height c) (c_x c) (c_x c + c_width c)"

text \<open>The dispatch on the method token.\<close>

definition reduce_region :: "ndarray \<Rightarrow> string \<Rightarrow> py_error + npscalar" where
  "reduce_region region method =
     (if method = ''mean'' then Inr (Float64 (np_mean region))
      else if method = ''median'' then Inr (Float64 (np_median region))
      else if method = ''max'' then
        (case np_max region of Inl e \<Rightarrow> Inl e | Inr m \<Rightarrow> Inr (UInt8 m))
      else if method = ''percentile'' then
        (case np_percentile region 95 of Inl e \<Rightarrow> Inl e | Inr p \<Rightarrow> Inr (Float64 p))
      else Inl (unknown_method method))"

text \<open>\<^verbatim>\<open>calculate_brightness(self, cell, method)\<close>: the returned scalar together with
  the cell as the call leaves it. An exception is raised before the assignment to
  \<^verbatim>\<open>cell.brightness\<close>, so a failing call leaves the cell as it was.\<close>

definition calculate_brightness ::
  "analyzer \<Rightarrow> cell \<Rightarrow> string \<Rightarrow> py_error + (npscalar \<times> cell)" where
  "calculate_brightness self c method =
     (case self_image self of
        None \<Rightarrow> Inl no_image_loaded
      | Some img \<Rightarrow>
          (case reduce_region (cell_region img c) method of
             Inl e \<Rightarrow> Inl e
           | Inr brightness \<Rightarrow> Inr (brightness, c\<lparr>c_brightness := py_float brightness\<rparr>)))"

section \<open>Formatting integers\<close>

text \<open>\<^verbatim>\<open>str(n)\<close> of a Python integer, as the f-strings of the identifiers use it.\<close>

definition digit_char :: "nat \<Rightarrow> char" where
  "digit_char d = ''0123456789'' ! d"

function str_nat :: "nat \<Rightarrow> string" where
  "str_nat n = (if n < 10 then [digit_char n] else str_nat (n div 10) @ [digit_char (n mod 10)])"
  by pat_completeness auto
termination
  by (relation "measure id") auto

declare str_nat.simps [simp del]

definition str_int :: "int \<Rightarrow> string" where
  "str_int i = (if i < 0 then CHR ''-'' # str_nat (nat (- i)) else str_nat (nat i))"

text \<open>\<^verbatim>\<open>range(n)\<close>: empty for \<open>n \<le> 0\<close>.\<close>

definition py_range :: "int \<Rightarrow> int list" where
  "py_range n = map int [0..<nat n]"

section \<open>The Region Locator\<close>

subsection \<open>Manual entry\<close>

definition add_cell_manual ::
  "analyzer \<Rightarrow> int \<Rightarrow> int \<Rightarrow> int \<Rightarrow> int \<Rightarrow> string option \<Rightarrow> cell \<times> analyzer" where
  "add_cell_manual self x y width height cell_id =
     (let cell_id' = (case cell_id of
                        None \<Rightarrow> ''cell_'' @ str_int (int (length (self_cells self)) + 1)
                      | Some s \<Rightarrow> s);
          c = Cell x y width height (Some cell_id')
      in (c, self\<lparr>self_cells := self_cells self @ [c]\<rparr>))"

subsection \<open>Grid partition\<close>

text \<open>The cell that the loop body builds for \<open>row\<close> and \<open>col\<close>.\<close>

definition grid_cell :: "int \<Rightarrow> int \<Rightarrow> int \<Rightarrow> int \<Rightarrow> int \<Rightarrow> int \<Rightarrow> cell" where
  "grid_cell margin spacing cell_width cell_height row col =
     (let x = margin + col * (cell_width + spacing);
          y = margin + row * (cell_height + spacing);
          cell_id = ''cell_r'' @ str_int (row + 1) @ ''_c'' @ str_int (col + 1)
      in Cell x y cell_width cell_height (Some cell_id))"

text \<open>One pass of the inner loop body: the cell is appended to the local list
  \<^verbatim>\<open>cells\<close> and to \<^verbatim>\<open>self.cells\<close>.\<close>

definition grid_step ::
  "int \<Rightarrow> int \<Rightarrow> int \<Rightarrow> int \<Rightarrow> int \<Rightarrow> int \<Rightarrow> cell list \<times> analyzer \<Rightarrow> cell list \<times> analyzer" where
  "grid_step margin spacing cell_width cell_height row col st =
     (let c = grid_cell margin spacing cell_width cell_height row col
      in (fst st @ [c], (snd st)\<lparr>self_cells := self_cells (snd st) @ [c]\<rparr>))"

definition grid_loop ::
  "int \<Rightarrow> int \<Rightarrow> int \<Rightarrow> int \<Rightarrow> int \<Rightarrow> int \<Rightarrow> analyzer \<Rightarrow> cell list \<times> analyzer" where
  "grid_loop rows cols margin spacing cell_width cell_height self =
     fold (\<lambda>row. fold (grid_step margin spacing cell_width cell_height row) (py_range cols))
       (py_range rows) ([], self)"

text \<open>\<^verbatim>\<open>add_cells_grid(self, rows, cols, margin, spacing)\<close>. The two floor divisions
  raise \<^verbatim>\<open>ZeroDivisionError\<close> for a zero divisor, the one by \<open>cols\<close> first.\<close>

definition add_cells_grid ::
  "analyzer \<Rightarrow> int \<Rightarrow> int \<Rightarrow> int \<Rightarrow> int \<Rightarrow> (py_error + cell list) \<times> analyzer" where
  "add_cells_grid self rows cols margin spacing =
     (case self_image self of
        None \<Rightarrow> (Inl no_image_loaded, self)
      | Some img \<Rightarrow>
          (let img_height = int (fst (shape img)); img_width = int (snd (shape img))
           in if cols = 0 then (Inl ZeroDivisionError, self)
              else let cell_width = (img_width - 2 * margin - (cols - 1) * spacing) div cols
              in if rows = 0 then (Inl ZeroDivisionError, self)
              else let cell_height = (img_height - 2 * margin - (rows - 1) * spacing) div rows;
                       r = grid_loop rows cols margin spacing cell_width cell_height self
              in (Inr (fst r), snd r)))"

subsection \<open>Automatic detection\<close>

text \<open>The OpenCV primitives are not code of this repository. The fixed-level binary
  threshold is written out; the level that Otsu's method picks, the adaptive threshold,
  the contour extraction, the contour area and the bounding rectangle are parameters,
  taken as total functions on a loaded 8-bit image.\<close>

record 'c cv2 =
  otsu_level :: "ndarray \<Rightarrow> u8"
  adaptiveThreshold :: "ndarray \<Rightarrow> u8 \<Rightarrow> nat \<Rightarrow> int \<Rightarrow> ndarray"
  findContours :: "ndarray \<Rightarrow> 'c list"
  contourArea :: "'c \<Rightarrow> rat"
  boundingRect :: "'c \<Rightarrow> int \<times> int \<times> int \<times> int"

text \<open>\<^verbatim>\<open>cv2.threshold(src, thresh, maxval, cv2.THRESH_BINARY)\<close>: \<open>maxval\<close> where the
  sample is above \<open>thresh\<close>, 0 elsewhere.\<close>

definition threshold_binary :: "ndarray \<Rightarrow> u8 \<Rightarrow> u8 \<Rightarrow> ndarray" where
  "threshold_binary src thresh maxval = map (map (\<lambda>p. if thresh < p then maxval else 0)) src"

definition binarize :: "'c cv2 \<Rightarrow> ndarray \<Rightarrow> string \<Rightarrow> ndarray" where
  "binarize cv img threshold_method =
     (if threshold_method = ''otsu'' then threshold_binary img (otsu_level cv img) 255
      else if threshold_method = ''adaptive'' then adaptiveThreshold cv img 255 11 2
      else threshold_binary img 127 255)"

text \<open>The body of the loop over \<^verbatim>\<open>enumerate(contours)\<close>.\<close>

definition detect_step :: "'c cv2 \<Rightarrow> int \<Rightarrow> nat \<times> 'c \<Rightarrow> cell list \<Rightarrow> cell list" where
  "detect_step cv min_area ic cells =
     (if of_int min_area \<le> contourArea cv (snd ic) then
        (case boundingRect cv (snd ic) of
           (x, y, w, h) \<Rightarrow> cells @ [Cell x y w h (Some (''cell_'' @ str_int (int (fst ic) + 1)))])
      else cells)"

definition detect_cells_automatically ::
  "'c cv2 \<Rightarrow> analyzer \<Rightarrow> int \<Rightarrow> string \<Rightarrow> (py_error + cell list) \<times> analyzer" where
  "detect_cells_automatically cv self min_area threshold_method =
     (case self_image self of
        None \<Rightarrow> (Inl no_image_loaded, self)
      | Some img \<Rightarrow>
          (let binary = binarize cv img threshold_method;
               contours = findContours cv binary;
               cells = fold (detect_step cv min_area) (enumerate 0 contours) []
           in (Inr cells, self\<lparr>self_cells := cells\<rparr>)))"

section \<open>The Result Aggregator\<close>

text \<open>The loop of \<^verbatim>\<open>analyze_all_cells\<close> over \<^verbatim>\<open>self.cells\<close>: \<open>done\<close> are the cells
  already visited, as the calls left them, \<open>results\<close> the dictionaries appended so far.
  When a call raises, the cells visited before it keep their new brightness.\<close>

fun analyze_loop ::
  "analyzer \<Rightarrow> string \<Rightarrow> cell list \<Rightarrow> cell list \<Rightarrow> pydict list \<Rightarrow>
     (py_error + pydict list) \<times> cell list" where
  "analyze_loop self method done [] results = (Inr results, done)"
| "analyze_loop self method done (c # rest) results =
     (case calculate_brightness self c method of
        Inl e \<Rightarrow> (Inl e, done @ c # rest)
      | Inr (brightness, c') \<Rightarrow>
          analyze_loop self method (done @ [c']) rest (results @ [to_dict c']))"

text \<open>\<^verbatim>\<open>analyze_all_cells(self, method)\<close>; the data frame it returns is built from the
  list of dictionaries, which stands for it here.\<close>

definition analyze_all_cells ::
  "analyzer \<Rightarrow> string \<Rightarrow> (py_error + pydict list) \<times> analyzer" where
  "analyze_all_cells self method =
     (if self_cells self = [] then (Inl no_cells_defined, self)
      else (case analyze_loop self method [] (self_cells self) [] of
              (Inl e, cells') \<Rightarrow> (Inl e, self\<lparr>self_cells := cells'\<rparr>)
            | (Inr results, cells') \<Rightarrow>
                (Inr results, self\<lparr>self_cells := cells', self_results := results\<rparr>)))"

section \<open>Notions for the statements\<close>

text \<open>The regions of the grid partition in row-major order.\<close>

definition grid_cells :: "int \<Rightarrow> int \<Rightarrow> int \<Rightarrow> int \<Rightarrow> int \<Rightarrow> int \<Rightarrow> cell list" where
  "grid_cells rows cols margin spacing cw ch =
     concat (map (\<lambda>row. map (grid_cell margin spacing cw ch row) (py_range cols)) (py_range rows))"

text \<open>The region that the detection makes of the contour at a position.\<close>

definition detect_cell :: "'c cv2 \<Rightarrow> nat \<times> 'c \<Rightarrow> cell" where
  "detect_cell cv ic =
     (case boundingRect cv (snd ic) of
        (x, y, w, h) \<Rightarrow> Cell x y w h (Some (''cell_'' @ str_int (int (fst ic) + 1))))"

text \<open>The fields of a region apart from its brightness.\<close>

definition geometry :: "cell \<Rightarrow> int \<times> int \<times> int \<times> int \<times> string option" where
  "geometry c = (c_x c, c_y c, c_width c, c_height c, c_cell_id c)"

text \<open>Every row of the array has the width that \<open>shape\<close> reports.\<close>

definition rectangular :: "ndarray \<Rightarrow> bool" where
  "rectangular a \<longleftrightarrow> (\<forall>r \<in> set a. length r = snd (shape a))"

text \<open>The region lies fully inside the grid.\<close>

definition inside_grid :: "ndarray \<Rightarrow> cell \<Rightarrow> bool" where
  "inside_grid img c \<longleftrightarrow>
     0 \<le> c_x c \<and> 0 \<le> c_y c \<and>
     c_x c + c_width c \<le> int (snd (shape img)) \<and>
     c_y c + c_height c \<le> int (fst (shape img))"

text \<open>The intersection of the region \<open>[x, x + width) \<times> [y, y + height)\<close> with the grid, as
  the specification words the truncation: the samples at the rows and columns that are
  both in the region and in the grid.\<close>

definition grid_intersection :: "ndarray \<Rightarrow> cell \<Rightarrow> ndarray" where
  "grid_intersection img c =
     (let r0 = nat (max 0 (c_y c));
          r1 = nat (min (c_y c + c_height c) (int (fst (shape img))));
          k0 = nat (max 0 (c_x c));
          k1 = nat (min (c_x c + c_width c) (int (snd (shape img))))
      in map (\<lambda>r. map (\<lambda>k. img ! r ! k) [k0..<k1]) [r0..<r1])"

text \<open>Two regions share a pixel: their column ranges and their row ranges both intersect.\<close>

definition overlaps :: "cell \<Rightarrow> cell \<Rightarrow> bool" where
  "overlaps a b \<longleftrightarrow>
     max (c_x a) (c_x b) < min (c_x a + c_width a) (c_x b + c_width b) \<and>
     max (c_y a) (c_y b) < min (c_y a + c_height a) (c_y b + c_height b)"

text \<open>\<^verbatim>\<open>cv2.contourArea\<close> of a contour given by its points: the area of the polygon by Green's
  formula, half the absolute value of the sum of the cross products of consecutive points.\<close>

definition green_area :: "(int \<times> int) list \<Rightarrow> rat" where
  "green_area ps =
     (case ps of
        [] \<Rightarrow> 0
      | p # _ \<Rightarrow>
          \<bar>of_int (sum_list (map (\<lambda>(a, b). fst a * snd b - fst b * snd a)
                                (zip ps (tl ps @ [p]))))\<bar> / 2)"

text \<open>\<^verbatim>\<open>cv2.boundingRect\<close> of a contour with at least one point: the least corner, and the
  width and the height counted in pixels.\<close>

definition bounding_rect :: "(int \<times> int) list \<Rightarrow> int \<times> int \<times> int \<times> int" where
  "bounding_rect ps =
     (let xs = map fst ps; ys = map snd ps;
          x0 = fold min (tl xs) (hd xs); x1 = fold max (tl xs) (hd xs);
          y0 = fold min (tl ys) (hd ys); y1 = fold max (tl ys) (hd ys)
      in (x0, y0, x1 - x0 + 1, y1 - y0 + 1))"

text \<open>The true pixel area that the specification speaks of, for a binary image whose
  foreground is a single component: the number of foreground samples.\<close>

definition true_pixel_area :: "ndarray \<Rightarrow> nat" where
  "true_pixel_area binary = length (filter (\<lambda>p. p \<noteq> 0) (concat binary))"

text \<open>An example session for the concrete instances: a 2 by 3 image, and stand-ins for the
  OpenCV primitives that find three contours of areas 150, 20 and 100.\<close>

definition demo_image :: ndarray where
  "demo_image = [ [0, 10, 10], [200, 30, 40]]"

definition demo_session :: analyzer where
  "demo_session = \<lparr>self_image = Some demo_image, self_cells = [], self_results = []\<rparr>"

text \<open>The example session with two regions and an earlier result.\<close>

definition demo_cells :: analyzer where
  "demo_cells = \<lparr>self_image = Some demo_image,
     self_cells = [Cell 0 0 3 1 (Some ''a''), Cell 1 1 2 1 None],
     self_results = [ [(''cell_id'', PNone)]]\<rparr>"

definition demo_cv :: "(rat \<times> int \<times> int \<times> int \<times> int) cv2" where
  "demo_cv = \<lparr>otsu_level = (\<lambda>_. 100), adaptiveThreshold = (\<lambda>img _ _ _. img),
     findContours = (\<lambda>_. [(150, 0, 0, 15, 10), (20, 20, 0, 5, 4), (100, 0, 20, 10, 10)]),
     contourArea = fst, boundingRect = snd\<rparr>"

text \<open>A 12 by 12 image with one 10 by 10 square of intensity 200 on a background of intensity
  30; its binarisation at the level 127; the external contour of the square as OpenCV
  reports it with \<^verbatim>\<open>CHAIN_APPROX_SIMPLE\<close>, the four corner pixels; and stand-ins for the
  OpenCV primitives that find this contour on this binary image and measure it as
  OpenCV does.\<close>

definition square_image :: ndarray where
  "square_image =
     replicate 12 30 # replicate 10 (30 # replicate 10 200 @ [30]) @ [replicate 12 30]"

definition square_binary :: ndarray where
  "square_binary =
     replicate 12 0 # replicate 10 (0 # replicate 10 255 @ [0]) @ [replicate 12 0]"

definition square_contour :: "(int \<times> int) list" where
  "square_contour = [(1, 1), (1, 10), (10, 10), (10, 1)]"

definition square_cv :: "(int \<times> int) list cv2" where
  "square_cv = \<lparr>otsu_level = (\<lambda>_. 115), adaptiveThreshold = (\<lambda>img _ _ _. img),
     findContours = (\<lambda>b. if b = square_binary then [square_contour] else []),
     contourArea = green_area, boundingRect = bounding_rect\<rparr>"

definition square_session :: analyzer where
  "square_session = \<lparr>self_image = Some square_image, self_cells = [], self_results = []\<rparr>"

section \<open>Properties\<close>

subsection \<open>The loops of the Region Locator\<close>

text \<open>The two nested loops of the grid partition are a concatenation of maps, and the loop of
  the detection is a filter followed by a map.\<close>

lemma fold_grid_step:
  "fold (grid_step m s cw ch row) cl st =
     (fst st @ map (grid_cell m s cw ch row) cl,
      (snd st)\<lparr>self_cells := self_cells (snd st) @ map (grid_cell m s cw ch row) cl\<rparr>)"
  by (induction cl arbitrary: st) (simp_all add: grid_step_def Let_def)

lemma fold_grid_rows:
  "fold (\<lambda>row. fold (grid_step m s cw ch row) cl) rl st =
     (fst st @ concat (map (\<lambda>row. map (grid_cell m s cw ch row) cl) rl),
      (snd st)\<lparr>self_cells :=
                 self_cells (snd st) @ concat (map (\<lambda>row. map (grid_cell m s cw ch row) cl) rl)\<rparr>)"
  by (induction rl arbitrary: st) (simp_all add: fold_grid_step)

lemma grid_loop_eq:
  "grid_loop rows cols m s cw ch self =
     (grid_cells rows cols m s cw ch, self\<lparr>self_cells := self_cells self @ grid_cells rows cols m s cw ch\<rparr>)"
  by (simp add: grid_loop_def fold_grid_rows grid_cells_def)

lemma grid_cells_brightness:
  "c \<in> set (grid_cells rows cols m s cw ch) \<Longrightarrow> c_brightness c = Fin 0"
  by (auto simp: grid_cells_def grid_cell_def Cell_def Let_def)

lemma grid_cells_length: "length (grid_cells rows cols m s cw ch) = nat rows * nat cols"
  by (simp add: grid_cells_def py_range_def length_concat comp_def sum_list_triv)

lemma grid_cells_size:
  "c \<in> set (grid_cells rows cols m s cw ch) \<Longrightarrow> c_width c = cw \<and> c_height c = ch"
  by (auto simp: grid_cells_def grid_cell_def Cell_def Let_def)

lemma add_cells_grid_Inr:
  "add_cells_grid self rows cols margin spacing = (Inr cs, self') \<Longrightarrow>
     \<exists>cw ch. cs = grid_cells rows cols margin spacing cw ch \<and>
       self' = self\<lparr>self_cells := self_cells self @ cs\<rparr>"
  by (auto simp: add_cells_grid_def grid_loop_eq Let_def split: option.splits if_splits)

lemma nth_concat_uniform:
  "\<forall>xs \<in> set xss. length xs = n \<Longrightarrow> i < length xss \<Longrightarrow> j < n \<Longrightarrow>
     concat xss ! (i * n + j) = xss ! i ! j"
proof (induction xss arbitrary: i)
  case Nil
  then show ?case by simp
next
  case (Cons xs xss)
  show ?case
  proof (cases i)
    case 0
    with Cons.prems show ?thesis by (simp add: nth_append)
  next
    case (Suc k)
    from Cons.prems have len: "length xs = n" by simp
    from Suc Cons.prems have k: "k < length xss" by simp
    have "concat (xs # xss) ! (i * n + j) = concat xss ! (k * n + j)"
      using Suc len by (simp add: nth_append)
    also have "\<dots> = xss ! k ! j"
      using Cons.prems(1,3) k by (intro Cons.IH) simp_all
    finally show ?thesis using Suc by simp
  qed
qed

lemma grid_cells_nth:
  assumes "r < nat rows" "c < nat cols"
  shows "grid_cells rows cols m s cw ch ! (r * nat cols + c) = grid_cell m s cw ch (int r) (int c)"
proof -
  let ?xss = "map (\<lambda>row. map (grid_cell m s cw ch row) (py_range cols)) (py_range rows)"
  have "concat ?xss ! (r * nat cols + c) = ?xss ! r ! c"
    using assms by (intro nth_concat_uniform) (auto simp: py_range_def)
  also have "\<dots> = grid_cell m s cw ch (int r) (int c)"
    using assms by (simp add: py_range_def)
  finally show ?thesis by (simp add: grid_cells_def)
qed

lemma grid_cells_mem:
  assumes "x \<in> set (grid_cells rows cols m s cw ch)"
  shows "\<exists>r c. 0 \<le> r \<and> r < rows \<and> 0 \<le> c \<and> c < cols \<and> x = grid_cell m s cw ch r c"
proof -
  from assms obtain a b where "a < nat rows" "b < nat cols"
    "x = grid_cell m s cw ch (int a) (int b)"
    by (auto simp: grid_cells_def py_range_def)
  then show ?thesis by (intro exI [of _ "int a"] exI [of _ "int b"]) auto
qed

lemma fold_detect_step:
  "fold (detect_step cv min_area) ics acc =
     acc @ map (detect_cell cv) (filter (\<lambda>ic. of_int min_area \<le> contourArea cv (snd ic)) ics)"
  by (induction ics arbitrary: acc) (simp_all add: detect_step_def detect_cell_def split: prod.splits)

lemma detect_cell_brightness: "c_brightness (detect_cell cv ic) = Fin 0"
  by (simp add: detect_cell_def Cell_def split: prod.splits)

lemma enumerate_nth: "enumerate 0 xs = map (\<lambda>i. (i, xs ! i)) [0..<length xs]"
  by (rule nth_equalityI) (simp_all add: nth_enumerate_eq)

subsection \<open>Geometry of the grid cells\<close>

text \<open>Two regions overlap exactly when some pixel lies in both; cells of one grid at different
  rows or columns do not, and with a non-negative interior they lie inside the grid.\<close>

lemma overlaps_iff_common_pixel:
  "overlaps a b \<longleftrightarrow>
     (\<exists>px py. (c_x a \<le> px \<and> px < c_x a + c_width a \<and> c_y a \<le> py \<and> py < c_y a + c_height a) \<and>
              (c_x b \<le> px \<and> px < c_x b + c_width b \<and> c_y b \<le> py \<and> py < c_y b + c_height b))"
proof
  assume "overlaps a b"
  then show "\<exists>px py. (c_x a \<le> px \<and> px < c_x a + c_width a \<and> c_y a \<le> py \<and> py < c_y a + c_height a) \<and>
              (c_x b \<le> px \<and> px < c_x b + c_width b \<and> c_y b \<le> py \<and> py < c_y b + c_height b)"
    by (intro exI [of _ "max (c_x a) (c_x b)"] exI [of _ "max (c_y a) (c_y b)"])
      (simp add: overlaps_def)
next
  assume "\<exists>px py. (c_x a \<le> px \<and> px < c_x a + c_width a \<and> c_y a \<le> py \<and> py < c_y a + c_height a) \<and>
              (c_x b \<le> px \<and> px < c_x b + c_width b \<and> c_y b \<le> py \<and> py < c_y b + c_height b)"
  then obtain px py where
    "c_x a \<le> px" "px < c_x a + c_width a" "c_y a \<le> py" "py < c_y a + c_height a"
    "c_x b \<le> px" "px < c_x b + c_width b" "c_y b \<le> py" "py < c_y b + c_height b"
    by blast
  then show "overlaps a b" by (simp add: overlaps_def)
qed

lemma interval_disjoint:
  fixes k1 k2 d s m :: int
  assumes "k1 \<noteq> k2" "0 \<le> s"
  shows "\<not> max (m + k1 * (d + s)) (m + k2 * (d + s)) <
           min (m + k1 * (d + s) + d) (m + k2 * (d + s) + d)"
proof (cases "d < 0")
  case True
  then show ?thesis by (simp add: min_def max_def)
next
  case False
  have step: "a * (d + s) + d \<le> b * (d + s)" if "a < b" for a b :: int
  proof -
    from that have "1 \<le> b - a" by simp
    moreover from False assms(2) have "0 \<le> d + s" by simp
    ultimately have "1 * (d + s) \<le> (b - a) * (d + s)" by (rule mult_right_mono)
    with assms(2) show ?thesis by (simp add: algebra_simps)
  qed
  from assms(1) consider "k1 < k2" | "k2 < k1" by linarith
  then show ?thesis
  proof cases
    case 1
    from step [OF 1] show ?thesis by (simp add: min_def max_def)
  next
    case 2
    from step [OF 2] show ?thesis by (simp add: min_def max_def)
  qed
qed

lemma grid_cells_disjoint:
  assumes "0 \<le> s" "r1 \<noteq> r2 \<or> k1 \<noteq> k2"
  shows "\<not> overlaps (grid_cell m s cw ch r1 k1) (grid_cell m s cw ch r2 k2)"
proof -
  from assms(2) show ?thesis
  proof
    assume "r1 \<noteq> r2"
    from interval_disjoint [OF this assms(1), of m ch] show ?thesis
      by (simp add: overlaps_def grid_cell_def Cell_def Let_def)
  next
    assume "k1 \<noteq> k2"
    from interval_disjoint [OF this assms(1), of m cw] show ?thesis
      by (simp add: overlaps_def grid_cell_def Cell_def Let_def)
  qed
qed

lemma grid_axis_inside:
  fixes W m s C k :: int
  assumes "1 \<le> C" "0 \<le> m" "0 \<le> s" "2 * m + (C - 1) * s \<le> W" "0 \<le> k" "k < C"
  shows "0 \<le> m + k * ((W - 2 * m - (C - 1) * s) div C + s) \<and>
         m + k * ((W - 2 * m - (C - 1) * s) div C + s) + (W - 2 * m - (C - 1) * s) div C \<le> W"
proof -
  define A where "A = W - 2 * m - (C - 1) * s"
  define d where "d = A div C"
  have A: "0 \<le> A" using assms(4) by (simp add: A_def)
  have d: "0 \<le> d" using A assms(1) by (simp add: d_def pos_imp_zdiv_nonneg_iff)
  have "A = C * d + A mod C" by (simp add: d_def)
  moreover have "0 \<le> A mod C" using assms(1) by simp
  ultimately have Cd: "C * d \<le> A" by linarith
  have ds: "0 \<le> d + s" using d assms(3) by simp
  have lo: "0 \<le> k * (d + s)" using assms(5) ds by (rule mult_nonneg_nonneg)
  have "k \<le> C - 1" using assms(6) by simp
  then have "k * (d + s) \<le> (C - 1) * (d + s)" using ds by (rule mult_right_mono)
  then have "m + k * (d + s) + d \<le> m + C * d + (C - 1) * s" by (simp add: algebra_simps)
  also have "\<dots> \<le> m + A + (C - 1) * s" using Cd by simp
  also have "\<dots> = W - m" by (simp add: A_def)
  finally have hi: "m + k * (d + s) + d \<le> W" using assms(2) by simp
  from lo hi assms(2) show ?thesis by (simp add: d_def A_def)
qed

subsection \<open>Outcomes of the Brightness Reducer\<close>

text \<open>A returning call changes the brightness only; an unknown token raises; \<^verbatim>\<open>mean\<close> and
  \<^verbatim>\<open>median\<close> always return.\<close>

lemma calculate_brightness_Inr:
  "calculate_brightness self c m = Inr (b, c') \<Longrightarrow> c' = c\<lparr>c_brightness := py_float b\<rparr>"
  by (auto simp: calculate_brightness_def split: option.splits sum.splits)

lemma calculate_brightness_geometry:
  "calculate_brightness self c m = Inr (b, c') \<Longrightarrow> geometry c' = geometry c"
  by (auto dest!: calculate_brightness_Inr simp: geometry_def)

lemma reduce_region_unknown:
  "m \<noteq> ''mean'' \<Longrightarrow> m \<noteq> ''median'' \<Longrightarrow> m \<noteq> ''max'' \<Longrightarrow> m \<noteq> ''percentile'' \<Longrightarrow>
     reduce_region r m = Inl (unknown_method m)"
  by (simp add: reduce_region_def)

lemma reduce_region_total:
  "m = ''mean'' \<or> m = ''median'' \<or> ((m = ''max'' \<or> m = ''percentile'') \<and> concat r \<noteq> []) \<Longrightarrow>
     \<exists>b. reduce_region r m = Inr b"
  by (auto simp: reduce_region_def np_max_def np_percentile_def Let_def split: list.splits)

lemma calculate_brightness_total:
  "self_image self = Some img \<Longrightarrow> m = ''mean'' \<or> m = ''median'' \<Longrightarrow>
     \<exists>b. calculate_brightness self c m = Inr (b, c\<lparr>c_brightness := py_float b\<rparr>)"
  by (auto simp: calculate_brightness_def reduce_region_def)

lemma calculate_brightness_unknown:
  "self_image self = Some img \<Longrightarrow>
     m \<noteq> ''mean'' \<Longrightarrow> m \<noteq> ''median'' \<Longrightarrow> m \<noteq> ''max'' \<Longrightarrow> m \<noteq> ''percentile'' \<Longrightarrow>
     calculate_brightness self c m = Inl (unknown_method m)"
  by (simp add: calculate_brightness_def reduce_region_unknown)



subsection \<open>Slices with non-negative bounds\<close>

text \<open>A slice whose bounds are not negative keeps the positions from the start up to the stop
  or the end of the list, whichever comes first.\<close>

lemma map_nth_upt_take_drop:
  "N \<le> length xs \<Longrightarrow> map ((!) xs) [M..<N] = take (N - M) (drop M xs)"
  by (rule nth_equalityI) (auto simp: nth_map_upt)

lemma py_slice_nonneg:
  assumes "0 \<le> lo" "0 \<le> hi"
  shows "py_slice lo hi xs = map ((!) xs) [nat lo..<min (nat hi) (length xs)]"
proof -
  have "map ((!) xs) [nat lo..<min (nat hi) (length xs)] =
      take (min (nat hi) (length xs) - nat lo) (drop (nat lo) xs)"
    by (simp add: map_nth_upt_take_drop)
  also have "\<dots> = py_slice lo hi xs"
  proof (cases "nat lo \<le> length xs")
    case True
    with assms show ?thesis
      by (simp add: py_slice_def slice_bound_def Let_def min.commute min_absorb2)
  next
    case False
    with assms show ?thesis
      by (simp add: py_slice_def slice_bound_def Let_def)
  qed
  finally show ?thesis by simp
qed

lemma cell_region_nonneg:
  assumes "rectangular img" "0 \<le> c_x c" "0 \<le> c_y c" "0 \<le> c_x c + c_width c" "0 \<le> c_y c + c_height c"
  shows "cell_region img c = grid_intersection img c"
proof -
  let ?W = "snd (shape img)"
  have row: "py_slice (c_x c) (c_x c + c_width c) (img ! r) =
      map (\<lambda>k. img ! r ! k) [nat (c_x c)..<min (nat (c_x c + c_width c)) ?W]"
    if "r < length img" for r
  proof -
    from that assms(1) have "length (img ! r) = ?W" by (simp add: rectangular_def)
    with py_slice_nonneg [OF assms(2,4), of "img ! r"] show ?thesis by simp
  qed
  have "cell_region img c =
      map (py_slice (c_x c) (c_x c + c_width c))
        (map ((!) img) [nat (c_y c)..<min (nat (c_y c + c_height c)) (length img)])"
    by (simp add: cell_region_def getitem2_def py_slice_nonneg [OF assms(3,5)])
  also have "\<dots> = map (\<lambda>r. map (\<lambda>k. img ! r ! k) [nat (c_x c)..<min (nat (c_x c + c_width c)) ?W])
        [nat (c_y c)..<min (nat (c_y c + c_height c)) (length img)]"
    by (simp add: row)
  also have "\<dots> = grid_intersection img c"
    using assms(2-5) by (simp add: grid_intersection_def shape_def Let_def min_def max_def nat_le_iff)
  finally show ?thesis .
qed

lemma concat_grid_nonempty:
  "k0 < k1 \<Longrightarrow> r0 < r1 \<Longrightarrow> concat (map (\<lambda>r. map (f r) [k0..<k1]) [r0..<r1]) \<noteq> []"
  by (simp add: upt_conv_Cons)

lemma cell_region_nonempty:
  assumes "rectangular img" "inside_grid img c" "0 < c_width c" "0 < c_height c"
  shows "concat (cell_region img c) \<noteq> []"
proof -
  from assms(2-4) have nn: "0 \<le> c_x c" "0 \<le> c_y c" "0 \<le> c_x c + c_width c" "0 \<le> c_y c + c_height c"
    by (simp_all add: inside_grid_def)
  have k: "nat (max 0 (c_x c)) < nat (min (c_x c + c_width c) (int (snd (shape img))))"
    using assms(2-4) by (simp add: inside_grid_def min_def max_def)
  have r: "nat (max 0 (c_y c)) < nat (min (c_y c + c_height c) (int (fst (shape img))))"
    using assms(2-4) by (simp add: inside_grid_def min_def max_def)
  show ?thesis
    unfolding cell_region_nonneg [OF assms(1) nn] grid_intersection_def Let_def
    by (rule concat_grid_nonempty [OF k r])
qed

subsection \<open>Order of the reductions\<close>

text \<open>The maximum bounds the mean and the median of a non-empty array.\<close>

lemma sum_list_unat_bound:
  "\<forall>z \<in> set xs. z \<le> (mx :: u8) \<Longrightarrow> sum_list (map unat xs) \<le> length xs * unat mx"
  by (induction xs) (auto simp: word_le_nat_alt)

lemma sample_mono:
  assumes "a \<le> b"
  shows "sample a \<le> sample b"
proof -
  from assms have "unat a \<le> unat b" by (rule word_le_nat_alt [THEN iffD1])
  then show ?thesis unfolding sample_def by (simp only: of_nat_le_iff)
qed

lemma median_bound:
  assumes "s \<noteq> []" "\<forall>z \<in> set s. sample z \<le> M"
  shows "\<exists>md. (if length s = 0 then NaN
               else if odd (length s) then Fin (sample (s ! (length s div 2)))
               else Fin ((sample (s ! (length s div 2 - 1)) + sample (s ! (length s div 2))) / 2)) =
              Fin md \<and> md \<le> M"
proof -
  from assms(1) have n: "0 < length s" by simp
  then have "s ! (length s div 2) \<in> set s" by (intro nth_mem) simp
  with assms(2) have h1: "sample (s ! (length s div 2)) \<le> M" by blast
  from n have "s ! (length s div 2 - 1) \<in> set s" by (intro nth_mem) arith
  with assms(2) have h2: "sample (s ! (length s div 2 - 1)) \<le> M" by blast
  show ?thesis
  proof (cases "odd (length s)")
    case True
    with n h1 show ?thesis by simp
  next
    case False
    from h1 h2 have "(sample (s ! (length s div 2 - 1)) + sample (s ! (length s div 2))) / 2 \<le> M"
      by simp
    with n False show ?thesis
      by (intro exI [of _ "(sample (s ! (length s div 2 - 1)) + sample (s ! (length s div 2))) / 2"])
        simp
  qed
qed

lemma reductions_ordered:
  assumes "concat a \<noteq> []"
  shows "\<exists>mx mn md. np_max a = Inr mx \<and> np_mean a = Fin mn \<and> np_median a = Fin md \<and>
           mn \<le> sample mx \<and> md \<le> sample mx"
proof -
  from assms obtain x r where xr: "concat a = x # r" by (cases "concat a") auto
  define mx where "mx = fold max r x"
  have mx: "mx = Max (set (concat a))" by (simp only: mx_def xr Max.set_eq_fold)
  have le: "\<forall>z \<in> set (concat a). z \<le> mx" by (simp add: mx)
  have 1: "np_max a = Inr mx" by (simp add: np_max_def xr mx_def)
  define mn where "mn = (of_nat (sum_list (map unat (concat a))) :: rat) / of_nat (length (concat a))"
  have 2: "np_mean a = Fin mn" using assms by (simp add: np_mean_def mn_def Let_def)
  have "(of_nat (sum_list (map unat (concat a))) :: rat) \<le> of_nat (length (concat a) * unat mx)"
    using sum_list_unat_bound [OF le] by (simp only: of_nat_le_iff)
  then have 3: "mn \<le> sample mx"
    using assms by (simp add: mn_def sample_def pos_divide_le_eq mult.commute)
  have "length (sort (concat a)) = length (concat a)" by simp
  with assms have "sort (concat a) \<noteq> []" by (metis length_0_conv)
  moreover have "\<forall>z \<in> set (sort (concat a)). sample z \<le> sample mx"
    using le by (auto intro: sample_mono)
  ultimately have "\<exists>md. np_median a = Fin md \<and> md \<le> sample mx"
    unfolding np_median_def Let_def by (rule median_bound)
  with 1 2 3 show ?thesis by blast
qed

subsection \<open>The loop of the Result Aggregator\<close>

text \<open>What the loop leaves in the cells and in the results.\<close>

lemma analyze_loop_cells:
  "map geometry (snd (analyze_loop self m dn todo res)) = map geometry (dn @ todo)"
proof (induction todo arbitrary: dn res)
  case Nil
  then show ?case by simp
next
  case (Cons c rest)
  show ?case
  proof (cases "calculate_brightness self c m")
    case (Inl e)
    then show ?thesis by simp
  next
    case (Inr p)
    obtain b c' where p: "p = (b, c')" by (cases p)
    with Inr have "geometry c' = geometry c" by (auto dest: calculate_brightness_geometry)
    with Inr p Cons.IH [of "dn @ [c']" "res @ [to_dict c']"] show ?thesis by simp
  qed
qed

lemma analyze_loop_Inr:
  "analyze_loop self m dn todo res = (Inr rs, cs) \<Longrightarrow>
     \<exists>new. length new = length todo \<and> cs = dn @ new \<and> rs = res @ map to_dict new \<and>
       (\<forall>i < length todo. \<exists>b. calculate_brightness self (todo ! i) m = Inr (b, new ! i))"
proof (induction todo arbitrary: dn res)
  case Nil
  then show ?case by simp
next
  case (Cons c rest)
  from Cons.prems obtain b c' where
    cb: "calculate_brightness self c m = Inr (b, c')" and
    lp: "analyze_loop self m (dn @ [c']) rest (res @ [to_dict c']) = (Inr rs, cs)"
    by (auto split: sum.splits)
  from Cons.IH [OF lp] obtain new where
    new: "length new = length rest" "cs = (dn @ [c']) @ new" "rs = (res @ [to_dict c']) @ map to_dict new"
      "\<forall>i < length rest. \<exists>b. calculate_brightness self (rest ! i) m = Inr (b, new ! i)"
    by blast
  have "\<forall>i < length (c # rest). \<exists>b. calculate_brightness self ((c # rest) ! i) m = Inr (b, (c' # new) ! i)"
    using cb new(4) by (auto simp: nth_Cons split: nat.splits)
  with new(1-3) show ?case
    by (intro exI [of _ "c' # new"]) simp
qed

lemma analyze_loop_succeeds:
  "\<forall>c \<in> set todo. \<exists>r. calculate_brightness self c m = Inr r \<Longrightarrow>
     \<exists>rs cs. analyze_loop self m dn todo res = (Inr rs, cs)"
  by (induction todo arbitrary: dn res) auto

lemma analyze_loop_Inl:
  "analyze_loop self m dn todo res = (Inl e, cs) \<Longrightarrow>
     \<exists>c \<in> set todo. calculate_brightness self c m = Inl e"
  by (induction todo arbitrary: dn res) (auto split: sum.splits)

lemma analyze_loop_fails:
  "\<exists>c \<in> set todo. \<exists>e. calculate_brightness self c m = Inl e \<Longrightarrow>
     \<exists>e cs. analyze_loop self m dn todo res = (Inl e, cs)"
proof (induction todo arbitrary: dn res)
  case Nil
  then show ?case by simp
next
  case (Cons c rest)
  show ?case
  proof (cases "calculate_brightness self c m")
    case (Inl e)
    then show ?thesis by simp
  next
    case (Inr p)
    with Cons.prems have "\<exists>c \<in> set rest. \<exists>e. calculate_brightness self c m = Inl e" by auto
    from Cons.IH [OF this] Inr show ?thesis by (cases p) simp
  qed
qed

subsection \<open>The example session\<close>

text \<open>Facts about the example session for the concrete instances.\<close>

lemma demo_loaded: "self_image demo_session = Some demo_image"
  by (simp add: demo_session_def)

lemma demo_rectangular: "rectangular demo_image"
  by (simp add: rectangular_def demo_image_def shape_def)

lemma demo_cells_loaded: "self_image demo_cells = Some demo_image"
  by (simp add: demo_cells_def)

lemma demo_grid:
  "\<exists>cs self'. add_cells_grid demo_session 1 2 0 0 = (Inr cs, self') \<and> length cs = 2"
  by (simp add: add_cells_grid_def grid_loop_eq grid_cells_length demo_session_def Let_def)

lemma demo_detect:
  "\<exists>cs self'. detect_cells_automatically demo_cv demo_session 100 ''otsu'' = (Inr cs, self') \<and>
     length cs = 2"
  by (simp add: detect_cells_automatically_def fold_detect_step Let_def
      demo_session_def demo_cv_def)

text \<open>Facts about the image with the bright square.\<close>

lemma square_threshold: "threshold_binary square_image 127 255 = square_binary"
  by (simp add: threshold_binary_def square_image_def square_binary_def)

lemma square_area: "green_area square_contour = 81"
  by (simp add: green_area_def square_contour_def)

lemma square_rect: "bounding_rect square_contour = (1, 1, 10, 10)"
  by (simp add: bounding_rect_def square_contour_def)

lemma square_pixels: "true_pixel_area square_binary = 100"
  by code_simp

lemma square_loaded: "self_image square_session = Some square_image"
  by (simp add: square_session_def)

subsection \<open>C1: maximum, mean and median\<close>

text \<open>Claim C1, as amended. On a rectangular image, for a region inside the grid with positive
  width and height, the methods \<^verbatim>\<open>max\<close>, \<^verbatim>\<open>mean\<close> and \<^verbatim>\<open>median\<close> all return, and the
  maximum is at least the mean and at least the median. (Samples are unsigned, so they
  are never negative.)\<close>

theorem max_bounds_mean_and_median:
  assumes "self_image self = Some img" "rectangular img" "inside_grid img c"
    "0 < c_width c" "0 < c_height c"
  shows "\<exists>mx mn md.
     calculate_brightness self c ''max'' = Inr (UInt8 mx, c\<lparr>c_brightness := Fin (sample mx)\<rparr>) \<and>
     calculate_brightness self c ''mean'' = Inr (Float64 (Fin mn), c\<lparr>c_brightness := Fin mn\<rparr>) \<and>
     calculate_brightness self c ''median'' = Inr (Float64 (Fin md), c\<lparr>c_brightness := Fin md\<rparr>) \<and>
     mn \<le> sample mx \<and> md \<le> sample mx"
proof -
  from reductions_ordered [OF cell_region_nonempty [OF assms(2-5)]] obtain mx mn md where
    "np_max (cell_region img c) = Inr mx" "np_mean (cell_region img c) = Fin mn"
    "np_median (cell_region img c) = Fin md" "mn \<le> sample mx" "md \<le> sample mx"
    by blast
  with assms(1) show ?thesis
    by (intro exI [of _ mx] exI [of _ mn] exI [of _ md])
      (simp add: calculate_brightness_def reduce_region_def sample_def)
qed

text \<open>The first row of the example image.\<close>

theorem max_bounds_mean_and_median_witness:
  "self_image demo_session = Some demo_image \<and> rectangular demo_image \<and>
   inside_grid demo_image (Cell 0 0 3 1 None) \<and>
   (\<exists>mx mn md.
     calculate_brightness demo_session (Cell 0 0 3 1 None) ''max'' =
       Inr (UInt8 mx, (Cell 0 0 3 1 None)\<lparr>c_brightness := Fin (sample mx)\<rparr>) \<and>
     calculate_brightness demo_session (Cell 0 0 3 1 None) ''mean'' =
       Inr (Float64 (Fin mn), (Cell 0 0 3 1 None)\<lparr>c_brightness := Fin mn\<rparr>) \<and>
     calculate_brightness demo_session (Cell 0 0 3 1 None) ''median'' =
       Inr (Float64 (Fin md), (Cell 0 0 3 1 None)\<lparr>c_brightness := Fin md\<rparr>) \<and>
     mn \<le> sample mx \<and> md \<le> sample mx)"
proof -
  have i: "inside_grid demo_image (Cell 0 0 3 1 None)"
    by (simp add: inside_grid_def demo_image_def shape_def Cell_def)
  have w: "0 < c_width (Cell 0 0 3 1 None)" "0 < c_height (Cell 0 0 3 1 None)"
    by (simp_all add: Cell_def)
  show ?thesis
    by (intro conjI demo_loaded demo_rectangular i
        max_bounds_mean_and_median [OF demo_loaded demo_rectangular i w])
qed

text \<open>Claim C1 fails as stated: on the samples 0, 10, 10 the mean is 20/3 and the median is
  10, so the mean is below the median.\<close>

theorem mean_below_median:
  "self_image demo_session = Some demo_image \<and> rectangular demo_image \<and>
   inside_grid demo_image (Cell 0 0 3 1 None) \<and>
   0 < c_width (Cell 0 0 3 1 None) \<and> 0 < c_height (Cell 0 0 3 1 None) \<and>
   calculate_brightness demo_session (Cell 0 0 3 1 None) ''mean'' =
     Inr (Float64 (Fin (20 / 3)), (Cell 0 0 3 1 None)\<lparr>c_brightness := Fin (20 / 3)\<rparr>) \<and>
   calculate_brightness demo_session (Cell 0 0 3 1 None) ''median'' =
     Inr (Float64 (Fin 10), (Cell 0 0 3 1 None)\<lparr>c_brightness := Fin 10\<rparr>) \<and>
   \<not> ((10 :: rat) \<le> 20 / 3)"
  by (simp add: demo_session_def demo_image_def rectangular_def inside_grid_def shape_def Cell_def
      calculate_brightness_def reduce_region_def cell_region_def getitem2_def py_slice_def
      slice_bound_def np_mean_def np_median_def sample_def)

subsection \<open>C2: layout of the grid partition\<close>

text \<open>Claim C2. With an image loaded, \<open>rows \<ge> 1\<close>, \<open>cols \<ge> 1\<close>, a margin and a spacing that are
  not negative and leave a non-negative interior on both axes, the grid partition returns
  \<open>rows * cols\<close> regions and appends them to the session. The region at position
  \<open>r * cols + c\<close> has the width and height given by the two floor divisions, the offset
  \<open>margin + index * (cell size + spacing)\<close> on each axis and the identifier
  \<^verbatim>\<open>cell_r{r+1}_c{c+1}\<close>. No two regions at different positions share a pixel, and every
  region lies inside the grid.\<close>

theorem grid_partition_layout:
  assumes "self_image self = Some img" "1 \<le> rows" "1 \<le> cols" "0 \<le> margin" "0 \<le> spacing"
    "2 * margin + (cols - 1) * spacing \<le> int (snd (shape img))"
    "2 * margin + (rows - 1) * spacing \<le> int (fst (shape img))"
  shows "let cw = (int (snd (shape img)) - 2 * margin - (cols - 1) * spacing) div cols;
             ch = (int (fst (shape img)) - 2 * margin - (rows - 1) * spacing) div rows
         in \<exists>cs. add_cells_grid self rows cols margin spacing =
                    (Inr cs, self\<lparr>self_cells := self_cells self @ cs\<rparr>) \<and>
                 length cs = nat (rows * cols) \<and>
                 (\<forall>r < nat rows. \<forall>c < nat cols.
                    cs ! (r * nat cols + c) =
                      Cell (margin + int c * (cw + spacing)) (margin + int r * (ch + spacing)) cw ch
                        (Some (''cell_r'' @ str_int (int r + 1) @ ''_c'' @ str_int (int c + 1)))) \<and>
                 (\<forall>i < length cs. \<forall>j < length cs. i \<noteq> j \<longrightarrow> \<not> overlaps (cs ! i) (cs ! j)) \<and>
                 (\<forall>c \<in> set cs. inside_grid img c)"
proof -
  define cw where "cw = (int (snd (shape img)) - 2 * margin - (cols - 1) * spacing) div cols"
  define ch where "ch = (int (fst (shape img)) - 2 * margin - (rows - 1) * spacing) div rows"
  define cs where "cs = grid_cells rows cols margin spacing cw ch"
  have run: "add_cells_grid self rows cols margin spacing =
      (Inr cs, self\<lparr>self_cells := self_cells self @ cs\<rparr>)"
    using assms(1-3) by (simp add: add_cells_grid_def grid_loop_eq Let_def cs_def cw_def ch_def)
  have len: "length cs = nat rows * nat cols" by (simp add: cs_def grid_cells_length)
  have len': "length cs = nat (rows * cols)"
    using assms(2) by (simp add: len nat_mult_distrib)
  have pos: "\<forall>r < nat rows. \<forall>c < nat cols.
      cs ! (r * nat cols + c) =
        Cell (margin + int c * (cw + spacing)) (margin + int r * (ch + spacing)) cw ch
          (Some (''cell_r'' @ str_int (int r + 1) @ ''_c'' @ str_int (int c + 1)))"
    by (simp add: cs_def grid_cells_nth grid_cell_def Let_def)
  have C: "0 < nat cols" using assms(3) by simp
  have at: "cs ! i = grid_cell margin spacing cw ch (int (i div nat cols)) (int (i mod nat cols))"
    if "i < length cs" for i
  proof -
    from that len have "i < nat rows * nat cols" by simp
    then have "i div nat cols < nat rows" by (rule less_mult_imp_div_less)
    moreover have "i mod nat cols < nat cols" using C by simp
    ultimately have "cs ! (i div nat cols * nat cols + i mod nat cols) =
        grid_cell margin spacing cw ch (int (i div nat cols)) (int (i mod nat cols))"
      unfolding cs_def by (rule grid_cells_nth)
    then show ?thesis by simp
  qed
  have dis: "\<forall>i < length cs. \<forall>j < length cs. i \<noteq> j \<longrightarrow> \<not> overlaps (cs ! i) (cs ! j)"
  proof (intro allI impI)
    fix i j
    assume i: "i < length cs" and j: "j < length cs" and ne: "i \<noteq> j"
    have "i div nat cols \<noteq> j div nat cols \<or> i mod nat cols \<noteq> j mod nat cols"
    proof (rule ccontr)
      assume "\<not> ?thesis"
      then have "i div nat cols * nat cols + i mod nat cols = j div nat cols * nat cols + j mod nat cols"
        by simp
      then have "i = j" by simp
      with ne show False by contradiction
    qed
    then have "int (i div nat cols) \<noteq> int (j div nat cols) \<or> int (i mod nat cols) \<noteq> int (j mod nat cols)"
      by simp
    then have "\<not> overlaps
        (grid_cell margin spacing cw ch (int (i div nat cols)) (int (i mod nat cols)))
        (grid_cell margin spacing cw ch (int (j div nat cols)) (int (j mod nat cols)))"
      by (rule grid_cells_disjoint [OF assms(5)])
    then show "\<not> overlaps (cs ! i) (cs ! j)"
      unfolding at [OF i] at [OF j] .
  qed
  have ins: "\<forall>c \<in> set cs. inside_grid img c"
  proof
    fix c
    assume "c \<in> set cs"
    then obtain r k where rk: "0 \<le> r" "r < rows" "0 \<le> k" "k < cols"
      "c = grid_cell margin spacing cw ch r k"
      unfolding cs_def by (blast dest: grid_cells_mem)
    from grid_axis_inside [OF assms(3,4,5,6) rk(3,4)] grid_axis_inside [OF assms(2,4,5,7) rk(1,2)]
    show "inside_grid img c"
      by (simp add: rk(5) inside_grid_def grid_cell_def Cell_def Let_def cw_def ch_def)
  qed
  from run len' pos dis ins show ?thesis
    unfolding Let_def cw_def [symmetric] ch_def [symmetric] by blast
qed

text \<open>One row and two columns on a 2 by 3 image.\<close>

theorem grid_partition_layout_witness:
  "self_image demo_session = Some demo_image \<and>
   2 * (0::int) + (2 - 1) * 1 \<le> int (snd (shape demo_image)) \<and>
   2 * (0::int) + (1 - 1) * 1 \<le> int (fst (shape demo_image)) \<and>
   (\<exists>cs. add_cells_grid demo_session 1 2 0 1 =
            (Inr cs, demo_session\<lparr>self_cells := self_cells demo_session @ cs\<rparr>) \<and>
          length cs = 2 \<and>
          cs ! 0 = Cell 0 0 1 2 (Some ''cell_r1_c1'') \<and>
          cs ! 1 = Cell 2 0 1 2 (Some ''cell_r1_c2'') \<and>
          \<not> overlaps (cs ! 0) (cs ! 1) \<and>
          (\<forall>c \<in> set cs. inside_grid demo_image c))"
proof -
  have h1: "(1::int) \<le> 1" and h2: "(1::int) \<le> 2" and h3: "(0::int) \<le> 0" and h4: "(0::int) \<le> 1"
    by simp_all
  have h5: "2 * (0::int) + (2 - 1) * 1 \<le> int (snd (shape demo_image))"
    by (simp add: shape_def demo_image_def)
  have h6: "2 * (0::int) + (1 - 1) * 1 \<le> int (fst (shape demo_image))"
    by (simp add: shape_def demo_image_def)
  from grid_partition_layout [OF demo_loaded h1 h2 h3 h4 h5 h6, unfolded Let_def]
  obtain cs where
    run: "add_cells_grid demo_session 1 2 0 1 =
            (Inr cs, demo_session\<lparr>self_cells := self_cells demo_session @ cs\<rparr>)" and
    len: "length cs = nat (1 * 2)" and
    pos: "\<forall>r < nat 1. \<forall>c < nat 2.
        cs ! (r * nat 2 + c) =
          Cell (0 + int c * ((int (snd (shape demo_image)) - 2 * 0 - (2 - 1) * 1) div 2 + 1))
            (0 + int r * ((int (fst (shape demo_image)) - 2 * 0 - (1 - 1) * 1) div 1 + 1))
            ((int (snd (shape demo_image)) - 2 * 0 - (2 - 1) * 1) div 2)
            ((int (fst (shape demo_image)) - 2 * 0 - (1 - 1) * 1) div 1)
            (Some (''cell_r'' @ str_int (int r + 1) @ ''_c'' @ str_int (int c + 1)))" and
    dis: "\<forall>i < length cs. \<forall>j < length cs. i \<noteq> j \<longrightarrow> \<not> overlaps (cs ! i) (cs ! j)" and
    ins: "\<forall>c \<in> set cs. inside_grid demo_image c"
    by (elim exE conjE)
  from len have len2: "length cs = 2" by simp
  from pos [rule_format, of 0 0] have c0: "cs ! 0 = Cell 0 0 1 2 (Some ''cell_r1_c1'')"
    by (simp add: shape_def demo_image_def str_int_def str_nat.simps digit_char_def)
  from pos [rule_format, of 0 1] have c1: "cs ! 1 = Cell 2 0 1 2 (Some ''cell_r1_c2'')"
    by (simp add: shape_def demo_image_def str_int_def str_nat.simps digit_char_def)
  from dis [rule_format, of 0 1] len2 have d: "\<not> overlaps (cs ! 0) (cs ! 1)" by simp
  from run len2 c0 c1 d ins have
    "\<exists>cs. add_cells_grid demo_session 1 2 0 1 =
            (Inr cs, demo_session\<lparr>self_cells := self_cells demo_session @ cs\<rparr>) \<and>
          length cs = 2 \<and>
          cs ! 0 = Cell 0 0 1 2 (Some ''cell_r1_c1'') \<and>
          cs ! 1 = Cell 2 0 1 2 (Some ''cell_r1_c2'') \<and>
          \<not> overlaps (cs ! 0) (cs ! 1) \<and>
          (\<forall>c \<in> set cs. inside_grid demo_image c)"
    by (intro exI [of _ cs] conjI)
  with demo_loaded h5 h6 show ?thesis by (intro conjI)
qed

subsection \<open>C3: filtering and numbering of the contours\<close>

text \<open>Claim C3, as amended. With an image loaded, the detection returns, in contour order, one
  region for each contour whose area, as \<^verbatim>\<open>cv2.contourArea\<close> returns it, is at least
  \<open>min_area\<close>; the region has the bounding rectangle of its contour and the identifier
  \<^verbatim>\<open>cell_{i+1}\<close> for the position \<open>i\<close> of the contour among all contours found, kept or not.\<close>

theorem detection_keeps_large_contours:
  assumes "self_image self = Some img"
  shows "fst (detect_cells_automatically cv self min_area tm) =
     Inr (map (\<lambda>i. case boundingRect cv (findContours cv (binarize cv img tm) ! i) of
                      (x, y, w, h) \<Rightarrow> Cell x y w h (Some (''cell_'' @ str_int (int i + 1))))
            (filter (\<lambda>i. of_int min_area \<le> contourArea cv (findContours cv (binarize cv img tm) ! i))
               [0..<length (findContours cv (binarize cv img tm))]))"
  using assms
  by (simp add: detect_cells_automatically_def fold_detect_step Let_def enumerate_nth
      filter_map comp_def detect_cell_def)

text \<open>Three contours of areas 150, 20 and 100 with \<open>min_area = 100\<close>: the kept regions are
  \<^verbatim>\<open>cell_1\<close> and \<^verbatim>\<open>cell_3\<close>, so the identifiers are not contiguous.\<close>

theorem detection_keeps_large_contours_witness:
  "self_image demo_session = Some demo_image \<and>
   fst (detect_cells_automatically demo_cv demo_session 100 ''otsu'') =
     Inr [Cell 0 0 15 10 (Some ''cell_1''), Cell 0 20 10 10 (Some ''cell_3'')]"
  using detection_keeps_large_contours [of demo_session demo_image demo_cv 100 "''otsu''"]
  by (simp add: demo_session_def demo_cv_def binarize_def upt_rec str_int_def str_nat.simps digit_char_def)

text \<open>Claim C3 fails as stated: on a 12 by 12 image with one bright 10 by 10 square the only
  contour is the four corners of the square. The square has 100 pixels, which is not
  below \<open>min_area = 100\<close>, but the area of the contour polygon, which
  \<^verbatim>\<open>cv2.contourArea\<close> returns, is 81, and the detection keeps nothing.\<close>

theorem contour_area_below_pixel_count:
  "binarize square_cv square_image ''manual'' = square_binary \<and>
   findContours square_cv square_binary = [square_contour] \<and>
   true_pixel_area square_binary = 100 \<and>
   (100 :: int) \<le> int (true_pixel_area square_binary) \<and>
   contourArea square_cv square_contour = 81 \<and>
   fst (detect_cells_automatically square_cv square_session 100 ''manual'') = Inr []"
proof -
  have b: "binarize square_cv square_image ''manual'' = square_binary"
    by (simp add: binarize_def square_threshold)
  have f: "findContours square_cv square_binary = [square_contour]"
    by (simp add: square_cv_def)
  have a: "contourArea square_cv square_contour = 81"
    by (simp add: square_cv_def square_area)
  have "fst (detect_cells_automatically square_cv square_session 100 ''manual'') = Inr []"
    by (simp add: detect_cells_automatically_def square_loaded b f detect_step_def a)
  with b f a show ?thesis by (simp add: square_pixels)
qed

subsection \<open>C4: the method token of the Brightness Reducer\<close>

text \<open>Claim C4, as amended. With an image loaded, a method token other than the four known ones
  raises the error of an unknown method. For \<^verbatim>\<open>mean\<close> and \<^verbatim>\<open>median\<close>, and for \<^verbatim>\<open>max\<close> and
  \<^verbatim>\<open>percentile\<close> on a region whose extracted sub-grid has a sample, the call returns a
  scalar \<open>b\<close> and leaves the region with \<^verbatim>\<open>float(b)\<close> as its brightness and every other
  field as before.\<close>

theorem reducer_method_dispatch:
  assumes "self_image self = Some img"
  shows "(m \<noteq> ''mean'' \<and> m \<noteq> ''median'' \<and> m \<noteq> ''max'' \<and> m \<noteq> ''percentile'' \<longrightarrow>
            calculate_brightness self c m = Inl (unknown_method m)) \<and>
         (m = ''mean'' \<or> m = ''median'' \<or>
            ((m = ''max'' \<or> m = ''percentile'') \<and> concat (cell_region img c) \<noteq> []) \<longrightarrow>
            (\<exists>b. calculate_brightness self c m = Inr (b, c\<lparr>c_brightness := py_float b\<rparr>)))"
proof (intro conjI impI)
  assume "m \<noteq> ''mean'' \<and> m \<noteq> ''median'' \<and> m \<noteq> ''max'' \<and> m \<noteq> ''percentile''"
  then show "calculate_brightness self c m = Inl (unknown_method m)"
    using assms by (simp add: calculate_brightness_def reduce_region_unknown)
next
  assume "m = ''mean'' \<or> m = ''median'' \<or>
            ((m = ''max'' \<or> m = ''percentile'') \<and> concat (cell_region img c) \<noteq> [])"
  from reduce_region_total [OF this] obtain b where "reduce_region (cell_region img c) m = Inr b" ..
  then show "\<exists>b. calculate_brightness self c m = Inr (b, c\<lparr>c_brightness := py_float b\<rparr>)"
    using assms by (simp add: calculate_brightness_def)
qed

text \<open>The token \<^verbatim>\<open>average\<close> and the token \<^verbatim>\<open>max\<close> on the first row of a loaded image.\<close>

theorem reducer_method_dispatch_witness:
  "self_image demo_session = Some demo_image \<and>
   calculate_brightness demo_session (Cell 0 0 3 1 None) ''average'' = Inl (unknown_method ''average'') \<and>
   (\<exists>b. calculate_brightness demo_session (Cell 0 0 3 1 None) ''max'' =
           Inr (b, (Cell 0 0 3 1 None)\<lparr>c_brightness := py_float b\<rparr>))"
proof -
  have ne: "concat (cell_region demo_image (Cell 0 0 3 1 None)) \<noteq> []"
    by (simp add: cell_region_def getitem2_def py_slice_def slice_bound_def demo_image_def Cell_def)
  from reducer_method_dispatch [OF demo_loaded, of "''average''" "Cell 0 0 3 1 None"]
    reducer_method_dispatch [OF demo_loaded, of "''max''" "Cell 0 0 3 1 None"] ne demo_loaded
  show ?thesis by simp
qed

text \<open>Claim C4 fails as stated: on a region of width 0 the recognised method \<^verbatim>\<open>max\<close> raises
  numpy's error for a reduction of a zero-size array, and nothing is stored or returned.\<close>

theorem reducer_max_on_empty_region:
  "calculate_brightness demo_session (Cell 0 0 0 1 None) ''max'' = Inl zero_size_maximum"
  by (simp add: calculate_brightness_def demo_session_def reduce_region_def np_max_def
      cell_region_def getitem2_def py_slice_def slice_bound_def demo_image_def Cell_def)

subsection \<open>C5: the result of the full analysis\<close>

text \<open>Claim C5, as amended. With no region the analysis raises the error of a missing region
  and leaves the session as it was. With regions, if the Brightness Reducer succeeds on
  each of them, the analysis returns one dictionary per region, in sequence order, built
  from the region as the Reducer left it, and the session's results are exactly these
  dictionaries, whatever they were before. If the Reducer raises on some region, the
  analysis raises an error that the Reducer raised on one of the regions, and the results
  of the session stay as they were.\<close>

theorem analyze_all_result:
  "(self_cells self = [] \<longrightarrow> analyze_all_cells self m = (Inl no_cells_defined, self)) \<and>
   (self_cells self \<noteq> [] \<and> (\<forall>c \<in> set (self_cells self). \<exists>r. calculate_brightness self c m = Inr r) \<longrightarrow>
      (\<exists>new. analyze_all_cells self m =
                (Inr (map to_dict new), self\<lparr>self_cells := new, self_results := map to_dict new\<rparr>) \<and>
             length new = length (self_cells self) \<and>
             (\<forall>i < length (self_cells self).
                \<exists>b. calculate_brightness self (self_cells self ! i) m = Inr (b, new ! i)))) \<and>
   (self_cells self \<noteq> [] \<and> (\<exists>c \<in> set (self_cells self). \<exists>e. calculate_brightness self c m = Inl e) \<longrightarrow>
      (\<exists>e self'. analyze_all_cells self m = (Inl e, self') \<and>
                 self_results self' = self_results self \<and>
                 (\<exists>c \<in> set (self_cells self). calculate_brightness self c m = Inl e)))"
proof (intro conjI impI)
  assume "self_cells self = []"
  then show "analyze_all_cells self m = (Inl no_cells_defined, self)"
    by (simp add: analyze_all_cells_def)
next
  assume a: "self_cells self \<noteq> [] \<and>
     (\<forall>c \<in> set (self_cells self). \<exists>r. calculate_brightness self c m = Inr r)"
  then obtain rs cs where lp: "analyze_loop self m [] (self_cells self) [] = (Inr rs, cs)"
    using analyze_loop_succeeds [of "self_cells self" self m "[]" "[]"] by blast
  from analyze_loop_Inr [OF lp] obtain new where
    new: "length new = length (self_cells self)" "cs = new" "rs = map to_dict new"
      "\<forall>i < length (self_cells self). \<exists>b. calculate_brightness self (self_cells self ! i) m = Inr (b, new ! i)"
    by auto
  have "analyze_all_cells self m =
      (Inr (map to_dict new), self\<lparr>self_cells := new, self_results := map to_dict new\<rparr>)"
    using a lp new(2,3) by (simp add: analyze_all_cells_def)
  with new(1,4) show "\<exists>new. analyze_all_cells self m =
                (Inr (map to_dict new), self\<lparr>self_cells := new, self_results := map to_dict new\<rparr>) \<and>
             length new = length (self_cells self) \<and>
             (\<forall>i < length (self_cells self).
                \<exists>b. calculate_brightness self (self_cells self ! i) m = Inr (b, new ! i))"
    by blast
next
  assume a: "self_cells self \<noteq> [] \<and>
     (\<exists>c \<in> set (self_cells self). \<exists>e. calculate_brightness self c m = Inl e)"
  then obtain e cs where lp: "analyze_loop self m [] (self_cells self) [] = (Inl e, cs)"
    using analyze_loop_fails [of "self_cells self" self m "[]" "[]"] by blast
  have "analyze_all_cells self m = (Inl e, self\<lparr>self_cells := cs\<rparr>)"
    using a lp by (simp add: analyze_all_cells_def)
  with analyze_loop_Inl [OF lp]
  show "\<exists>e self'. analyze_all_cells self m = (Inl e, self') \<and>
                 self_results self' = self_results self \<and>
                 (\<exists>c \<in> set (self_cells self). calculate_brightness self c m = Inl e)"
    by (intro exI [of _ e] exI [of _ "self\<lparr>self_cells := cs\<rparr>"]) simp
qed

text \<open>A session without regions, one with two regions analysed with \<^verbatim>\<open>mean\<close>, and the same
  session with an unknown method.\<close>

theorem analyze_all_result_witness:
  "analyze_all_cells init ''mean'' = (Inl no_cells_defined, init) \<and>
   (\<exists>new. analyze_all_cells demo_cells ''mean'' =
            (Inr (map to_dict new), demo_cells\<lparr>self_cells := new, self_results := map to_dict new\<rparr>) \<and>
          length new = length (self_cells demo_cells)) \<and>
   (\<exists>e self'. analyze_all_cells demo_cells ''average'' = (Inl e, self') \<and>
              self_results self' = self_results demo_cells)"
proof -
  have a: "self_cells init = []" by (simp add: init_def)
  have b: "self_cells demo_cells \<noteq> []" by (simp add: demo_cells_def)
  have c: "\<forall>c \<in> set (self_cells demo_cells). \<exists>r. calculate_brightness demo_cells c ''mean'' = Inr r"
    using calculate_brightness_total [OF demo_cells_loaded, of "''mean''"] by blast
  have "calculate_brightness demo_cells (hd (self_cells demo_cells)) ''average'' =
      Inl (unknown_method ''average'')"
    by (rule calculate_brightness_unknown [OF demo_cells_loaded]) simp_all
  moreover have "hd (self_cells demo_cells) \<in> set (self_cells demo_cells)"
    using b by simp
  ultimately have d: "\<exists>c \<in> set (self_cells demo_cells).
      \<exists>e. calculate_brightness demo_cells c ''average'' = Inl e" by blast
  from analyze_all_result [of init "''mean''"] a
  have 1: "analyze_all_cells init ''mean'' = (Inl no_cells_defined, init)" by blast
  from analyze_all_result [of demo_cells "''mean''"] b c
  have 2: "\<exists>new. analyze_all_cells demo_cells ''mean'' =
            (Inr (map to_dict new), demo_cells\<lparr>self_cells := new, self_results := map to_dict new\<rparr>) \<and>
          length new = length (self_cells demo_cells)" by blast
  from analyze_all_result [of demo_cells "''average''"] b d
  have 3: "\<exists>e self'. analyze_all_cells demo_cells ''average'' = (Inl e, self') \<and>
              self_results self' = self_results demo_cells" by blast
  from 1 2 3 show ?thesis by blast
qed

text \<open>Claim C5 fails as stated: a session with one manual region and no image has a non-empty
  region sequence, and the analysis raises the error of the missing image; a session with
  an image, two regions and an earlier result raises on an unknown method. No dictionary
  is produced and the earlier results stay.\<close>

theorem analyze_all_reducer_failure:
  "self_cells (snd (add_cell_manual init 0 0 1 1 None)) \<noteq> [] \<and>
   analyze_all_cells (snd (add_cell_manual init 0 0 1 1 None)) ''mean'' =
     (Inl no_image_loaded, snd (add_cell_manual init 0 0 1 1 None)) \<and>
   self_cells demo_cells \<noteq> [] \<and>
   fst (analyze_all_cells demo_cells ''average'') = Inl (unknown_method ''average'') \<and>
   self_results (snd (analyze_all_cells demo_cells ''average'')) = [ [(''cell_id'', PNone)]]"
  by (simp add: add_cell_manual_def init_def analyze_all_cells_def calculate_brightness_def
      reduce_region_def demo_cells_def Let_def)

subsection \<open>C6: failure paths of the detection\<close>

text \<open>Claim C6. Without an image the detection raises the error of a missing image and leaves
  the session as it was. With an image it returns a region list for every threshold method
  token; for a token other than \<^verbatim>\<open>otsu\<close> and \<^verbatim>\<open>adaptive\<close> the regions are those that the
  loop makes of the contours found on the binary threshold of the image at the fixed level
  127 with maximum 255, and the result is the one that the token \<^verbatim>\<open>manual\<close> gives.\<close>

theorem detection_failure_paths:
  "(self_image self = None \<longrightarrow>
      detect_cells_automatically cv self min_area tm = (Inl no_image_loaded, self)) \<and>
   (\<forall>img. self_image self = Some img \<longrightarrow>
      (\<exists>cs. detect_cells_automatically cv self min_area tm = (Inr cs, self\<lparr>self_cells := cs\<rparr>)) \<and>
      (tm \<noteq> ''otsu'' \<and> tm \<noteq> ''adaptive'' \<longrightarrow>
         detect_cells_automatically cv self min_area tm =
           (Inr (fold (detect_step cv min_area)
                   (enumerate 0 (findContours cv (threshold_binary img 127 255))) []),
            self\<lparr>self_cells :=
                   fold (detect_step cv min_area)
                     (enumerate 0 (findContours cv (threshold_binary img 127 255))) []\<rparr>) \<and>
         detect_cells_automatically cv self min_area tm =
           detect_cells_automatically cv self min_area ''manual''))"
  by (simp add: detect_cells_automatically_def binarize_def Let_def split: option.splits)

text \<open>A session without an image, and the misspelt token \<^verbatim>\<open>ostu\<close> on the image with the bright
  square: the binary image is the one of the level 127 and the square is found.\<close>

theorem detection_failure_paths_witness:
  "detect_cells_automatically square_cv init 50 ''ostu'' = (Inl no_image_loaded, init) \<and>
   (''ostu'' \<noteq> ''otsu'' \<and> ''ostu'' \<noteq> ''adaptive'') \<and>
   threshold_binary square_image 127 255 = square_binary \<and>
   detect_cells_automatically square_cv square_session 50 ''ostu'' =
     (Inr [Cell 1 1 10 10 (Some ''cell_1'')],
      square_session\<lparr>self_cells := [Cell 1 1 10 10 (Some ''cell_1'')]\<rparr>)"
proof -
  have a: "self_image init = None" by (simp add: init_def)
  have c: "''ostu'' \<noteq> ''otsu'' \<and> ''ostu'' \<noteq> ''adaptive''" by simp
  have cs: "fold (detect_step square_cv 50)
      (enumerate 0 (findContours square_cv (threshold_binary square_image 127 255))) [] =
      [Cell 1 1 10 10 (Some ''cell_1'')]"
    by (simp add: square_threshold square_cv_def detect_step_def square_area square_rect
        str_int_def str_nat.simps digit_char_def)
  from detection_failure_paths [of init square_cv 50 "''ostu''"] a
  have 1: "detect_cells_automatically square_cv init 50 ''ostu'' = (Inl no_image_loaded, init)"
    by (rule conjunct1 [THEN mp])
  from detection_failure_paths [of square_session square_cv 50 "''ostu''"] square_loaded c
  have "detect_cells_automatically square_cv square_session 50 ''ostu'' =
      (Inr (fold (detect_step square_cv 50)
              (enumerate 0 (findContours square_cv (threshold_binary square_image 127 255))) []),
       square_session\<lparr>self_cells :=
          fold (detect_step square_cv 50)
            (enumerate 0 (findContours square_cv (threshold_binary square_image 127 255))) []\<rparr>)"
    by blast
  then have 2: "detect_cells_automatically square_cv square_session 50 ''ostu'' =
     (Inr [Cell 1 1 10 10 (Some ''cell_1'')],
      square_session\<lparr>self_cells := [Cell 1 1 10 10 (Some ''cell_1'')]\<rparr>)"
    by (simp only: cs)
  from 1 c square_threshold 2 show ?thesis by simp
qed

subsection \<open>C7: failures of the grid partition\<close>

text \<open>Claim C7, as amended. Without an image the grid partition raises the error of a missing
  image. With an image it raises exactly when \<open>rows = 0\<close> or \<open>cols = 0\<close>, the error of a
  division by zero; for every other \<open>rows\<close> and \<open>cols\<close> it returns
  \<open>nat rows * nat cols\<close> regions of the computed width and height, whatever their sign, and
  appends them to the session.\<close>

theorem grid_partition_failures:
  "(self_image self = None \<longrightarrow>
      add_cells_grid self rows cols margin spacing = (Inl no_image_loaded, self)) \<and>
   (\<forall>img. self_image self = Some img \<longrightarrow>
      (rows = 0 \<or> cols = 0 \<longrightarrow>
         add_cells_grid self rows cols margin spacing = (Inl ZeroDivisionError, self)) \<and>
      (rows \<noteq> 0 \<and> cols \<noteq> 0 \<longrightarrow>
         (\<exists>cs. add_cells_grid self rows cols margin spacing =
                  (Inr cs, self\<lparr>self_cells := self_cells self @ cs\<rparr>) \<and>
               length cs = nat rows * nat cols \<and>
               (\<forall>c \<in> set cs.
                  c_width c = (int (snd (shape img)) - 2 * margin - (cols - 1) * spacing) div cols \<and>
                  c_height c = (int (fst (shape img)) - 2 * margin - (rows - 1) * spacing) div rows))))"
  by (auto simp: add_cells_grid_def grid_loop_eq Let_def grid_cells_length dest: grid_cells_size)

text \<open>A session without an image; a loaded one with \<open>rows = 0\<close>, and with one row and two columns.\<close>

theorem grid_partition_failures_witness:
  "add_cells_grid init 1 1 0 0 = (Inl no_image_loaded, init) \<and>
   add_cells_grid demo_session 0 2 0 0 = (Inl ZeroDivisionError, demo_session) \<and>
   (\<exists>cs. add_cells_grid demo_session 1 2 0 0 =
            (Inr cs, demo_session\<lparr>self_cells := self_cells demo_session @ cs\<rparr>) \<and>
          length cs = 2)"
proof -
  have a: "self_image init = None" by (simp add: init_def)
  from grid_partition_failures [of init 1 1 0 0] a
  have 1: "add_cells_grid init 1 1 0 0 = (Inl no_image_loaded, init)" by blast
  from grid_partition_failures [of demo_session 0 2 0 0] demo_loaded
  have 2: "add_cells_grid demo_session 0 2 0 0 = (Inl ZeroDivisionError, demo_session)" by blast
  from grid_partition_failures [of demo_session 1 2 0 0] demo_loaded
  have 3: "\<exists>cs. add_cells_grid demo_session 1 2 0 0 =
            (Inr cs, demo_session\<lparr>self_cells := self_cells demo_session @ cs\<rparr>) \<and>
          length cs = nat 1 * nat 2" by auto
  from 1 2 3 show ?thesis by simp
qed

text \<open>Claim C7 fails as stated: with \<open>rows = -1\<close> the partition returns the empty list, and
  with a margin of 2 on a 2 by 3 image it returns one region of width -1 and height -2;
  neither call raises.\<close>

theorem grid_partition_no_guard:
  "fst (add_cells_grid demo_session (- 1) 1 0 0) = Inr [] \<and>
   fst (add_cells_grid demo_session 1 1 2 0) = Inr [Cell 2 2 (- 1) (- 2) (Some ''cell_r1_c1'')]"
  by (simp add: add_cells_grid_def grid_loop_eq grid_cells_def py_range_def demo_session_def
      demo_image_def shape_def grid_cell_def Let_def str_int_def str_nat.simps digit_char_def)

subsection \<open>C8: regions that run past the grid edges\<close>




subsection \<open>C9: created regions carry the default brightness\<close>

text \<open>Claim C9. Every region made by manual entry, by the grid partition or by the automatic
  detection has the brightness \<^verbatim>\<open>0.0\<close> that the dataclass gives by default, and the
  three operations change the session's regions only by appending the new ones (manual
  entry, grid partition) or by replacing the sequence with the new ones (detection): no
  brightness is computed or set by them.\<close>

theorem created_regions_uncomputed:
  "c_brightness (fst (add_cell_manual self x y w h i)) = Fin 0 \<and>
   self_cells (snd (add_cell_manual self x y w h i)) =
     self_cells self @ [fst (add_cell_manual self x y w h i)] \<and>
   (\<forall>cs self'. add_cells_grid self rows cols margin spacing = (Inr cs, self') \<longrightarrow>
      (\<forall>c \<in> set cs. c_brightness c = Fin 0) \<and> self_cells self' = self_cells self @ cs) \<and>
   (\<forall>cs self'. detect_cells_automatically cv self min_area tm = (Inr cs, self') \<longrightarrow>
      (\<forall>c \<in> set cs. c_brightness c = Fin 0) \<and> self_cells self' = cs)"
proof (intro conjI allI impI)
  show "c_brightness (fst (add_cell_manual self x y w h i)) = Fin 0"
    by (simp add: add_cell_manual_def Cell_def Let_def)
  show "self_cells (snd (add_cell_manual self x y w h i)) =
     self_cells self @ [fst (add_cell_manual self x y w h i)]"
    by (simp add: add_cell_manual_def Let_def)
next
  fix cs self'
  assume a: "add_cells_grid self rows cols margin spacing = (Inr cs, self')"
  from add_cells_grid_Inr [OF a] show "\<forall>c \<in> set cs. c_brightness c = Fin 0"
    by (auto dest: grid_cells_brightness)
  from add_cells_grid_Inr [OF a] show "self_cells self' = self_cells self @ cs"
    by auto
next
  fix cs self'
  assume a: "detect_cells_automatically cv self min_area tm = (Inr cs, self')"
  then have cs: "cs = map (detect_cell cv)
      (filter (\<lambda>ic. of_int min_area \<le> contourArea cv (snd ic))
         (enumerate 0 (findContours cv (binarize cv (the (self_image self)) tm))))"
    and s: "self' = self\<lparr>self_cells := cs\<rparr>"
    by (auto simp: detect_cells_automatically_def fold_detect_step Let_def split: option.splits)
  show "\<forall>c \<in> set cs. c_brightness c = Fin 0"
    unfolding cs by (auto simp: detect_cell_brightness)
  show "self_cells self' = cs" using s by simp
qed

text \<open>The three operations at a session with a loaded 2 by 3 image.\<close>

theorem created_regions_uncomputed_witness:
  "c_brightness (fst (add_cell_manual demo_session 0 0 1 1 None)) = Fin 0 \<and>
   (\<exists>cs self'. add_cells_grid demo_session 1 2 0 0 = (Inr cs, self') \<and> length cs = 2 \<and>
      (\<forall>c \<in> set cs. c_brightness c = Fin 0)) \<and>
   (\<exists>cs self'. detect_cells_automatically demo_cv demo_session 100 ''otsu'' = (Inr cs, self') \<and>
      length cs = 2 \<and> (\<forall>c \<in> set cs. c_brightness c = Fin 0))"
proof -
  note T = created_regions_uncomputed
    [of demo_session 0 0 1 1 None 1 2 0 0 demo_cv 100 "''otsu''"]
  from demo_grid obtain gs gself where
    g: "add_cells_grid demo_session 1 2 0 0 = (Inr gs, gself)" "length gs = 2" by blast
  from demo_detect obtain ds dself where
    d: "detect_cells_automatically demo_cv demo_session 100 ''otsu'' = (Inr ds, dself)"
      "length ds = 2" by blast
  from T have 1: "c_brightness (fst (add_cell_manual demo_session 0 0 1 1 None)) = Fin 0"
    by (rule conjunct1)
  from T g(1) have 2: "\<forall>c \<in> set gs. c_brightness c = Fin 0" by blast
  from T d(1) have 3: "\<forall>c \<in> set ds. c_brightness c = Fin 0" by blast
  from 1 2 3 g d show ?thesis by blast
qed

subsection \<open>C10: what the full analysis leaves unchanged\<close>

text \<open>Claim C10. Whether it returns or raises, \<^verbatim>\<open>analyze_all_cells\<close> leaves the image as it was
  and leaves the sequence of regions with the same length, the same order and the same
  \<open>x\<close>, \<open>y\<close>, width, height and identifier in every region; of a region only the brightness
  can differ.\<close>

theorem analyze_all_frame:
  "self_image (snd (analyze_all_cells self m)) = self_image self \<and>
   map (\<lambda>c. (c_x c, c_y c, c_width c, c_height c, c_cell_id c)) (self_cells (snd (analyze_all_cells self m))) =
     map (\<lambda>c. (c_x c, c_y c, c_width c, c_height c, c_cell_id c)) (self_cells self)"
proof -
  obtain r cs where lp: "analyze_loop self m [] (self_cells self) [] = (r, cs)"
    by (cases "analyze_loop self m [] (self_cells self) []")
  from analyze_loop_cells [of self m "[]" "self_cells self" "[]"] lp
  have g: "map geometry cs = map geometry (self_cells self)" by simp
  have "self_image (snd (analyze_all_cells self m)) = self_image self"
    using lp by (cases r) (simp_all add: analyze_all_cells_def)
  moreover have "map geometry (self_cells (snd (analyze_all_cells self m))) = map geometry (self_cells self)"
    using lp g by (cases r) (simp_all add: analyze_all_cells_def)
  ultimately show ?thesis by (simp add: geometry_def [abs_def])
qed

end
